theory Spec2Isabelle
  imports Complex_Main
begin

section \<open>Configuration (config.py)\<close>

text \<open>
  The dictionary \<open>config\<close> of config.py, one field per key. The functions below take the
  configuration as an argument; \<open>config\<close> is the dictionary as the repository ships it.
\<close>

record config =
  SENSOR_UPDATE_INTERVAL :: int
  RTC_UPDATE_INTERVAL :: int
  DOOR_CLOSE_DELAY :: int
  MOTION_TIMEOUT :: int
  DOOR_DISTANCE :: int
  GARAGE_CLOSE_AFTER :: int
  GARAGE_CLOSE_BEFORE :: int

definition config :: config where
  "config =
     \<lparr>SENSOR_UPDATE_INTERVAL = 60, RTC_UPDATE_INTERVAL = 43200, DOOR_CLOSE_DELAY = 12,
      MOTION_TIMEOUT = 300, DOOR_DISTANCE = 90, GARAGE_CLOSE_AFTER = 20,
      GARAGE_CLOSE_BEFORE = 7\<rparr>"

section \<open>Shared state (class Garage_state)\<close>

text \<open>
  \<open>door_status\<close> is dynamically typed in the source: \<open>None\<close> at start, the strings
  "Open" and "Closed" written by \<open>get_door_state\<close>, and the coroutine object that
  \<open>check_open_time\<close> stores when it calls the async function \<open>get_door_state()\<close>
  without awaiting it. \<open>motion\<close> is \<open>None\<close>, \<open>True\<close> or \<open>False\<close>. Times are the
  floats of \<open>time.monotonic()\<close>.
\<close>

datatype pyobj = PyNone | PyStr string | PyCoroutine

record Garage_state =
  door_error :: bool
  motion :: "bool option"
  door_status :: pyobj
  motion_timeout :: real
  pause_door_check :: bool

definition Garage_state_init :: Garage_state where
  "Garage_state_init =
     \<lparr>door_error = False, motion = None, door_status = PyNone, motion_timeout = 0,
      pause_door_check = False\<rparr>"

text \<open>
  What is handed to \<open>publish_to_mqtt\<close> as the message: a plain string, the JSON object
  of the property \<open>Garage_state.json\<close> (its three entries), or \<open>json.dumps\<close> applied to
  the state object itself (line 234 of code.py).
\<close>

datatype payload = Text string | Json_state pyobj bool "bool option" | Json_dumps_object

definition json :: "Garage_state \<Rightarrow> payload" where
  "json gs = Json_state (door_status gs) (door_error gs) (motion gs)"

section \<open>Topics\<close>

text \<open>The topic prefix \<open>secrets["mqtt_topic"]\<close> is not part of the repository: a parameter.\<close>

definition MQTT_ENVIRONMENT :: "string \<Rightarrow> string" where
  "MQTT_ENVIRONMENT mqtt_topic = mqtt_topic @ ''/environment''"

definition MQTT_GARAGE_STATE :: "string \<Rightarrow> string" where
  "MQTT_GARAGE_STATE mqtt_topic = mqtt_topic @ ''/garage-state''"

definition MQTT_DOOR_REQUEST :: "string \<Rightarrow> string" where
  "MQTT_DOOR_REQUEST mqtt_topic = mqtt_topic @ ''/door-request''"

definition MQTT_SYSTEM :: "string \<Rightarrow> string" where
  "MQTT_SYSTEM mqtt_topic = mqtt_topic @ ''/system''"

section \<open>Messaging link (publish_to_mqtt, mqtt_client_loop)\<close>

text \<open>
  The MQTT client is a collaborator: each of its calls returns, raises
  \<open>MQTT.MMQTTException\<close> (protocol level) or raises \<open>OSError\<close> (transport level). A
  value of \<open>mqtt_client\<close> fixes what each call does during one use of the link.

  What the code does is recorded as a list of actions, in order. \<open>Publish\<close> and
  \<open>Loop\<close> record that the client's \<open>publish\<close> / \<open>loop\<close> was called.
  \<open>microcontroller.reset()\<close> restarts the device and does not return: \<open>Reset\<close> is
  always the last action of a trace, and nothing of the interrupted function runs
  after it (its \<open>finally\<close> block included).
\<close>

datatype outcome = Ok | Raises_MMQTTException | Raises_OSError

record mqtt_client =
  is_connected :: outcome
  reconnect :: outcome
  publish :: outcome
  loop :: outcome

datatype action =
    Is_connected
  | Reconnect
  | Publish string payload
  | Loop
  | Reset
  | Create_task_activate_opener
  | Sleep int

definition restarted :: "action list \<Rightarrow> bool" where
  "restarted tr = (Reset \<in> set tr)"

text \<open>The calls of the client's \<open>publish\<close> in a trace: topic and message, in order.\<close>

fun publishes :: "action list \<Rightarrow> (string \<times> payload) list" where
  "publishes [] = []"
| "publishes (Publish topic message # tr) = (topic, message) # publishes tr"
| "publishes (a # tr) = publishes tr"

definition publish_to_mqtt :: "mqtt_client \<Rightarrow> string \<Rightarrow> payload \<Rightarrow> action list" where
  "publish_to_mqtt c topic message =
     (let attempt = (case publish c of
                       Ok \<Rightarrow> [Publish topic message]
                     | Raises_MMQTTException \<Rightarrow> [Publish topic message, Reset]
                     | Raises_OSError \<Rightarrow> [Publish topic message, Reset])
      in case is_connected c of
           Ok \<Rightarrow> Is_connected # attempt
         | Raises_MMQTTException \<Rightarrow>
             (case reconnect c of
                Ok \<Rightarrow> Is_connected # Reconnect # attempt
              | Raises_MMQTTException \<Rightarrow> [Is_connected, Reconnect, Reset]
              | Raises_OSError \<Rightarrow> [Is_connected, Reconnect, Reset])
         | Raises_OSError \<Rightarrow> [Is_connected, Reset])"

text \<open>One iteration of the \<open>while True\<close> of \<open>mqtt_client_loop\<close>, up to its \<open>sleep(1)\<close>.\<close>

definition mqtt_client_loop_iter :: "mqtt_client \<Rightarrow> action list" where
  "mqtt_client_loop_iter c =
     (let attempt = (case loop c of
                       Ok \<Rightarrow> [Loop, Sleep 1]
                     | Raises_MMQTTException \<Rightarrow> [Loop, Reset]
                     | Raises_OSError \<Rightarrow> [Loop, Reset])
      in case is_connected c of
           Ok \<Rightarrow> Is_connected # attempt
         | Raises_MMQTTException \<Rightarrow>
             (case reconnect c of
                Ok \<Rightarrow> Is_connected # Reconnect # attempt
              | Raises_MMQTTException \<Rightarrow> [Is_connected, Reconnect, Reset]
              | Raises_OSError \<Rightarrow> [Is_connected, Reconnect, Reset])
         | Raises_OSError \<Rightarrow> [Is_connected, Reset])"

section \<open>Remote request handler (message)\<close>

text \<open>
  The callback keeps no state: it compares the topic and the payload, publishes the
  acknowledgment and creates the actuator task. The task is created only if
  \<open>publish_to_mqtt\<close> returned.
\<close>

definition message :: "string \<Rightarrow> mqtt_client \<Rightarrow> string \<Rightarrow> string \<Rightarrow> action list" where
  "message mqtt_topic c topic msg =
     (if topic = MQTT_DOOR_REQUEST mqtt_topic then
        if msg = ''True'' then
          (let tr = publish_to_mqtt c (MQTT_DOOR_REQUEST mqtt_topic) (Text ''False'')
           in if restarted tr then tr else tr @ [Create_task_activate_opener])
        else []
      else [])"

section \<open>Relay actuator (activate_opener)\<close>

text \<open>
  A coroutine with two suspension points. \<open>activate_opener_resume\<close> runs it from one
  suspension point to the next on the state it finds there (other tasks run while it
  sleeps): it returns the new state and relay value, the next position, and the sleep
  it asks for, if any.
\<close>

datatype opener_pc = Opener_entry | Opener_pulse | Opener_settle | Opener_returned

fun activate_opener_resume ::
  "config \<Rightarrow> opener_pc \<Rightarrow> Garage_state \<times> bool \<Rightarrow> (Garage_state \<times> bool) \<times> opener_pc \<times> int option"
where
  "activate_opener_resume cfg Opener_entry (gs, relay) =
     ((gs\<lparr>pause_door_check := True\<rparr>, True), Opener_pulse, Some 2)"
| "activate_opener_resume cfg Opener_pulse (gs, relay) =
     ((gs, False), Opener_settle, Some (DOOR_CLOSE_DELAY cfg))"
| "activate_opener_resume cfg Opener_settle (gs, relay) =
     ((gs\<lparr>pause_door_check := False\<rparr>, relay), Opener_returned, None)"
| "activate_opener_resume cfg Opener_returned (gs, relay) =
     ((gs, relay), Opener_returned, None)"

text \<open>The whole call with nothing else running in between: final state and the sleeps.\<close>

definition activate_opener :: "config \<Rightarrow> Garage_state \<times> bool \<Rightarrow> (Garage_state \<times> bool) \<times> int list" where
  "activate_opener cfg w =
     (let (w1, pc1, s1) = activate_opener_resume cfg Opener_entry w;
          (w2, pc2, s2) = activate_opener_resume cfg pc1 w1;
          (w3, pc3, s3) = activate_opener_resume cfg pc2 w2
      in (w3, List.map_filter id [s1, s2, s3]))"

section \<open>Motion monitor (get_motion_state)\<close>

text \<open>
  One iteration of the loop: \<open>pir\<close> is the sensor value, \<open>t1\<close> and \<open>t2\<close> the two
  readings of \<open>time.monotonic()\<close>. The \<open>try\<close> guards an attribute read and a
  comparison, neither of which raises \<open>KeyError\<close>.
\<close>

definition get_motion_state_iter :: "config \<Rightarrow> bool \<Rightarrow> real \<Rightarrow> real \<Rightarrow> Garage_state \<Rightarrow> Garage_state" where
  "get_motion_state_iter cfg pir t1 t2 gs =
     (let gs1 = (if pir then gs\<lparr>motion_timeout := t1 + of_int (MOTION_TIMEOUT cfg),
                                 motion := Some True\<rparr>
                 else gs)
      in if t2 > motion_timeout gs1 then gs1\<lparr>motion := Some False\<rparr> else gs1)"

section \<open>Door position monitor (get_door_state)\<close>

text \<open>
  One iteration of the loop, from its \<open>sleep(0)\<close> on; \<open>distance\<close> is what the sensor
  returns when it is read (it is not read on a paused iteration).
\<close>

definition get_door_state_iter ::
  "config \<Rightarrow> string \<Rightarrow> mqtt_client \<Rightarrow> real \<Rightarrow> Garage_state \<Rightarrow> Garage_state \<times> action list"
where
  "get_door_state_iter cfg mqtt_topic c distance gs =
     (if pause_door_check gs then (gs, [Sleep 0])
      else
        let previous_state = door_status gs;
            gs' = (if distance < of_int (DOOR_DISTANCE cfg)
                   then gs\<lparr>door_status := PyStr ''Open''\<rparr>
                   else gs\<lparr>door_status := PyStr ''Closed''\<rparr>)
        in if previous_state \<noteq> door_status gs'
           then (gs', Sleep 0 # publish_to_mqtt c (MQTT_GARAGE_STATE mqtt_topic) (json gs'))
           else (gs', [Sleep 0]))"

section \<open>Scheduled auto-close policy (check_open_time)\<close>

text \<open>
  The coroutine has one suspension point, the \<open>sleep(DOOR_CLOSE_DELAY)\<close> after the
  actuator task is created. \<open>check_open_time_begin\<close> runs from the entry to that point
  or to the return; \<open>check_open_time_resume\<close> runs from there to the end, on the state
  found after the sleep.

  \<open>door_error_time\<close> is a local name of the function (it is assigned in its body), so
  it is unbound at entry, and reading it in the \<open>elif\<close> raises.
\<close>

datatype pyerror = UnboundLocalError

datatype policy_point = Returned Garage_state | Awaiting "action list"

definition check_open_time_begin ::
  "config \<Rightarrow> int \<Rightarrow> real \<Rightarrow> Garage_state \<Rightarrow> pyerror + policy_point"
where
  "check_open_time_begin cfg tm_hour now gs =
     (let door_error_time = (None :: real option) in
      if tm_hour \<ge> GARAGE_CLOSE_AFTER cfg \<or> tm_hour \<le> GARAGE_CLOSE_BEFORE cfg then
        if door_status gs = PyStr ''Open'' then
          if door_error gs = False then
            if motion gs = Some False then
              Inr (Awaiting [Create_task_activate_opener, Sleep (DOOR_CLOSE_DELAY cfg)])
            else Inr (Returned gs)
          else
            (case door_error_time of
               None \<Rightarrow> Inl UnboundLocalError
             | Some t \<Rightarrow>
                 if now > t + 900 then Inr (Returned (gs\<lparr>door_error := False\<rparr>))
                 else Inr (Returned gs))
        else Inr (Returned gs)
      else Inr (Returned gs))"

text \<open>
  After the sleep: \<open>get_door_state()\<close> is called without \<open>await\<close>, so what is stored in
  \<open>door_status\<close> is the coroutine object; no sensor is read. The second component is
  the local \<open>door_error_time\<close> at the end of the call.
\<close>

definition check_open_time_resume ::
  "string \<Rightarrow> mqtt_client \<Rightarrow> real \<Rightarrow> Garage_state \<Rightarrow> Garage_state \<times> real option \<times> action list"
where
  "check_open_time_resume mqtt_topic c now gs =
     (let gs1 = gs\<lparr>door_status := PyCoroutine\<rparr>;
          (gs2, door_error_time) =
             (if door_status gs1 = PyStr ''Open''
              then (gs1\<lparr>door_error := True\<rparr>, Some now)
              else (gs1, None))
      in (gs2, door_error_time,
          publish_to_mqtt c (MQTT_GARAGE_STATE mqtt_topic) Json_dumps_object))"

text \<open>The whole call, with no other task changing the state during the sleep.\<close>

definition check_open_time ::
  "config \<Rightarrow> string \<Rightarrow> mqtt_client \<Rightarrow> int \<Rightarrow> real \<Rightarrow> real \<Rightarrow> Garage_state
     \<Rightarrow> pyerror + Garage_state \<times> action list"
where
  "check_open_time cfg mqtt_topic c tm_hour now now' gs =
     (case check_open_time_begin cfg tm_hour now gs of
        Inl e \<Rightarrow> Inl e
      | Inr (Returned gs') \<Rightarrow> Inr (gs', [])
      | Inr (Awaiting tr) \<Rightarrow>
          (let (gs', door_error_time, tr') = check_open_time_resume mqtt_topic c now' gs
           in Inr (gs', tr @ tr')))"

definition actions_of :: "pyerror + Garage_state \<times> action list \<Rightarrow> action list" where
  "actions_of r = (case r of Inl e \<Rightarrow> [] | Inr (gs', tr) \<Rightarrow> tr)"

definition close_initiated :: "pyerror + policy_point \<Rightarrow> bool" where
  "close_initiated r =
     (case r of
        Inl e \<Rightarrow> False
      | Inr (Returned gs') \<Rightarrow> False
      | Inr (Awaiting tr) \<Rightarrow> Create_task_activate_opener \<in> set tr)"

section \<open>Periodic publishers\<close>

text \<open>
  One iteration each of \<open>mqtt_publish_loop\<close>, \<open>get_sensor_data\<close> and
  \<open>get_system_data\<close>; \<open>data\<close> is the text \<open>json.dumps\<close> makes of the sampled values.
\<close>

definition mqtt_publish_loop_iter :: "string \<Rightarrow> mqtt_client \<Rightarrow> Garage_state \<Rightarrow> action list" where
  "mqtt_publish_loop_iter mqtt_topic c gs =
     (let tr = publish_to_mqtt c (MQTT_GARAGE_STATE mqtt_topic) (json gs)
      in if restarted tr then tr else tr @ [Sleep 60])"

definition get_sensor_data_iter :: "string \<Rightarrow> mqtt_client \<Rightarrow> string \<Rightarrow> action list" where
  "get_sensor_data_iter mqtt_topic c data =
     (let tr = publish_to_mqtt c (MQTT_ENVIRONMENT mqtt_topic) (Text data)
      in if restarted tr then tr else tr @ [Sleep 60])"

definition get_system_data_iter :: "string \<Rightarrow> mqtt_client \<Rightarrow> string \<Rightarrow> action list" where
  "get_system_data_iter mqtt_topic c data =
     (let tr = publish_to_mqtt c (MQTT_SYSTEM mqtt_topic) (Text data)
      in if restarted tr then tr else tr @ [Sleep 60])"

section \<open>Executions of the shared state\<close>

text \<open>
  The tasks run on one thread and give up control only at their \<open>await\<close>s, so an
  execution is a sequence of uninterrupted pieces of the tasks, each with the values
  it reads from its environment. Every interleaving of the pieces is a sequence of
  events; the sequences are not restricted to the ones the scheduler produces, so what
  holds of all of them holds of the program. The state is the \<open>Garage_state\<close>
  instance and \<open>relay.value\<close>. A piece that restarts the device or raises ends the
  execution (\<open>None\<close>): an exception of a task ends \<open>asyncio.gather\<close> and with it
  the program.
\<close>

datatype event =
    Motion_iter bool real real
  | Door_iter mqtt_client real
  | Policy_begin int real
  | Policy_resume mqtt_client real
  | Opener opener_pc
  | Message mqtt_client string string
  | Link_loop mqtt_client
  | State_publish mqtt_client
  | Sensor_data mqtt_client string
  | System_data mqtt_client string

fun step :: "config \<Rightarrow> string \<Rightarrow> event \<Rightarrow> Garage_state \<times> bool \<Rightarrow> (Garage_state \<times> bool) option" where
  "step cfg mqtt_topic (Motion_iter pir t1 t2) (gs, relay) =
     Some (get_motion_state_iter cfg pir t1 t2 gs, relay)"
| "step cfg mqtt_topic (Door_iter c distance) (gs, relay) =
     (let (gs', tr) = get_door_state_iter cfg mqtt_topic c distance gs
      in if restarted tr then None else Some (gs', relay))"
| "step cfg mqtt_topic (Policy_begin tm_hour now) (gs, relay) =
     (case check_open_time_begin cfg tm_hour now gs of
        Inl e \<Rightarrow> None
      | Inr (Returned gs') \<Rightarrow> Some (gs', relay)
      | Inr (Awaiting tr) \<Rightarrow> Some (gs, relay))"
| "step cfg mqtt_topic (Policy_resume c now) (gs, relay) =
     (let (gs', door_error_time, tr) = check_open_time_resume mqtt_topic c now gs
      in if restarted tr then None else Some (gs', relay))"
| "step cfg mqtt_topic (Opener pc) (gs, relay) =
     Some (fst (activate_opener_resume cfg pc (gs, relay)))"
| "step cfg mqtt_topic (Message c topic msg) (gs, relay) =
     (if restarted (message mqtt_topic c topic msg) then None else Some (gs, relay))"
| "step cfg mqtt_topic (Link_loop c) (gs, relay) =
     (if restarted (mqtt_client_loop_iter c) then None else Some (gs, relay))"
| "step cfg mqtt_topic (State_publish c) (gs, relay) =
     (if restarted (mqtt_publish_loop_iter mqtt_topic c gs) then None else Some (gs, relay))"
| "step cfg mqtt_topic (Sensor_data c data) (gs, relay) =
     (if restarted (get_sensor_data_iter mqtt_topic c data) then None else Some (gs, relay))"
| "step cfg mqtt_topic (System_data c data) (gs, relay) =
     (if restarted (get_system_data_iter mqtt_topic c data) then None else Some (gs, relay))"

fun run :: "config \<Rightarrow> string \<Rightarrow> event list \<Rightarrow> Garage_state \<times> bool \<Rightarrow> (Garage_state \<times> bool) option" where
  "run cfg mqtt_topic [] w = Some w"
| "run cfg mqtt_topic (e # es) w =
     (case step cfg mqtt_topic e w of None \<Rightarrow> None | Some w' \<Rightarrow> run cfg mqtt_topic es w')"

fun is_motion_iter :: "event \<Rightarrow> bool" where
  "is_motion_iter (Motion_iter pir t1 t2) = True"
| "is_motion_iter e = False"

fun is_opener :: "event \<Rightarrow> bool" where
  "is_opener (Opener pc) = True"
| "is_opener e = False"

section \<open>Task coordinator (main)\<close>

text \<open>
  \<open>main\<close> creates one task per coroutine, in this order, and gathers them. What
  matters of a task here is its control skeleton: the body of six of the coroutines is
  a \<open>while True\<close> with no \<open>break\<close> or \<open>return\<close>, so a resumed task runs one
  iteration and suspends again inside the loop; \<open>update_rtc\<close> has no loop and no
  \<open>await\<close> and returns when it is first resumed; \<open>check_open_time\<close> has no loop
  either: resumed at its entry it evaluates the close-window condition and returns, or
  (when it starts a close) suspends at its one \<open>sleep\<close>, from where the next resume
  returns. A task that returned is never resumed again. \<open>resume_task\<close> gives the next
  position and whether this piece evaluated the task's body from its start (an
  iteration of a loop, the setting of the clock, the close-window condition).
  Restarts and exceptions, which end everything, are not part of the skeleton.
\<close>

datatype task =
    Get_motion_state
  | Get_door_state
  | Get_sensor_data
  | Get_system_data
  | Update_rtc
  | Check_open_time
  | Mqtt_client_loop
  | Mqtt_publish_loop

definition main :: "task list" where
  "main =
     [Get_motion_state, Get_door_state, Get_sensor_data, Get_system_data, Update_rtc,
      Check_open_time, Mqtt_client_loop, Mqtt_publish_loop]"

datatype position = At_entry | In_loop | At_sleep | Finished

fun resume_task :: "task \<Rightarrow> bool \<Rightarrow> position \<Rightarrow> position \<times> bool" where
  "resume_task t closing Finished = (Finished, False)"
| "resume_task Update_rtc closing p = (Finished, True)"
| "resume_task Check_open_time closing At_entry =
     (if closing then (At_sleep, True) else (Finished, True))"
| "resume_task Check_open_time closing p = (Finished, False)"
| "resume_task t closing p = (In_loop, True)"

text \<open>
  The scheduler's state: the tasks \<open>main\<close> created, each with its position, and the log
  of evaluations. A schedule is any sequence of picks of a task (by its index in the
  list) together with the outcome of the policy's guard, should it be the one resumed.
\<close>

definition create_tasks :: "task list \<Rightarrow> (task \<times> position) list" where
  "create_tasks ts = map (\<lambda>t. (t, At_entry)) ts"

definition resume_nth ::
  "nat \<times> bool \<Rightarrow> (task \<times> position) list \<times> task list \<Rightarrow> (task \<times> position) list \<times> task list"
where
  "resume_nth pick s =
     (case pick of (i, closing) \<Rightarrow>
      case s of (tasks, evals) \<Rightarrow>
        if i < length tasks then
          (case tasks ! i of (t, p) \<Rightarrow>
           case resume_task t closing p of (p', evaluated) \<Rightarrow>
             (tasks[i := (t, p')], if evaluated then evals @ [t] else evals))
        else (tasks, evals))"

fun schedule :: "(nat \<times> bool) list \<Rightarrow> (task \<times> position) list \<times> task list \<Rightarrow> (task \<times> position) list \<times> task list" where
  "schedule [] s = s"
| "schedule (pick # picks) s = schedule picks (resume_nth pick s)"

definition asyncio_run_main :: "(nat \<times> bool) list \<Rightarrow> (task \<times> position) list \<times> task list" where
  "asyncio_run_main picks = schedule picks (create_tasks main, [])"

fun loops_forever :: "task \<Rightarrow> bool" where
  "loops_forever Update_rtc = False"
| "loops_forever Check_open_time = False"
| "loops_forever t = True"

text \<open>
  For the proofs: the pieces of one task run in order from a position (\<open>bs\<close> gives the
  outcome of the policy's guard at each resume), with the number of evaluations; and the
  picks of a schedule that fall on the task at index \<open>i\<close>.
\<close>

fun task_run :: "task \<Rightarrow> bool list \<Rightarrow> position \<Rightarrow> position \<times> nat" where
  "task_run t [] p = (p, 0)"
| "task_run t (b # bs) p =
     (case resume_task t b p of (p', evaluated) \<Rightarrow>
      case task_run t bs p' of (p'', n) \<Rightarrow> (p'', (if evaluated then 1 else 0) + n))"

definition picks_of :: "nat \<Rightarrow> (nat \<times> bool) list \<Rightarrow> bool list" where
  "picks_of i picks = map snd (filter (\<lambda>pick. fst pick = i) picks)"

section \<open>Basic facts\<close>

lemma config_simps:
  "DOOR_CLOSE_DELAY config = 12" "DOOR_DISTANCE config = 90" "MOTION_TIMEOUT config = 300"
  "GARAGE_CLOSE_AFTER config = 20" "GARAGE_CLOSE_BEFORE config = 7"
  by (simp_all add: config_def)

lemma publish_to_mqtt_cases:
  "publish_to_mqtt c topic m =
     (if is_connected c = Raises_OSError then [Is_connected, Reset]
      else if is_connected c = Raises_MMQTTException \<and> reconnect c \<noteq> Ok
        then [Is_connected, Reconnect, Reset]
      else (if is_connected c = Ok then [Is_connected] else [Is_connected, Reconnect])
           @ Publish topic m # (if publish c = Ok then [] else [Reset]))"
  by (cases "is_connected c"; cases "reconnect c"; cases "publish c")
     (simp_all add: publish_to_mqtt_def)

lemma mqtt_client_loop_iter_cases:
  "mqtt_client_loop_iter c =
     (if is_connected c = Raises_OSError then [Is_connected, Reset]
      else if is_connected c = Raises_MMQTTException \<and> reconnect c \<noteq> Ok
        then [Is_connected, Reconnect, Reset]
      else (if is_connected c = Ok then [Is_connected] else [Is_connected, Reconnect])
           @ Loop # (if loop c = Ok then [Sleep 1] else [Reset]))"
  by (cases "is_connected c"; cases "reconnect c"; cases "loop c")
     (simp_all add: mqtt_client_loop_iter_def)

lemma publishes_publish_to_mqtt:
  "publishes (publish_to_mqtt c topic m) =
     (if is_connected c = Ok \<or> (is_connected c = Raises_MMQTTException \<and> reconnect c = Ok)
      then [(topic, m)] else [])"
  by (cases "is_connected c"; cases "reconnect c"; cases "publish c")
     (simp_all add: publish_to_mqtt_def)

lemma restarted_publish_to_mqtt:
  "restarted (publish_to_mqtt c topic m) \<longleftrightarrow>
     \<not> ((is_connected c = Ok \<or> (is_connected c = Raises_MMQTTException \<and> reconnect c = Ok))
        \<and> publish c = Ok)"
  by (cases "is_connected c"; cases "reconnect c"; cases "publish c")
     (simp_all add: publish_to_mqtt_def restarted_def)

lemma restarted_mqtt_client_loop_iter:
  "restarted (mqtt_client_loop_iter c) \<longleftrightarrow>
     \<not> ((is_connected c = Ok \<or> (is_connected c = Raises_MMQTTException \<and> reconnect c = Ok))
        \<and> loop c = Ok)"
  by (cases "is_connected c"; cases "reconnect c"; cases "loop c")
     (simp_all add: mqtt_client_loop_iter_def restarted_def)

lemma publishes_append: "publishes (xs @ ys) = publishes xs @ publishes ys"
  by (induction xs rule: publishes.induct) simp_all

lemma count_list_concat_replicate:
  "count_list (concat (replicate n xs)) a = n * count_list xs a"
  by (induction n) simp_all

lemma count_create_task_publish_to_mqtt:
  "count_list (publish_to_mqtt c topic m) Create_task_activate_opener = 0"
  by (simp add: publish_to_mqtt_cases)

lemma run_append:
  "run cfg p (es1 @ es2) w =
     (case run cfg p es1 w of None \<Rightarrow> None | Some w' \<Rightarrow> run cfg p es2 w')"
  by (induction es1 arbitrary: w) (simp_all split: option.splits)

lemma check_open_time_begin_Returned:
  "check_open_time_begin cfg h now gs = Inr (Returned gs') \<Longrightarrow> gs' = gs"
  by (simp add: check_open_time_begin_def split: if_splits)

lemma step_frame:
  assumes "step cfg p e (gs, relay) = Some (gs', relay')"
  shows "(\<not> is_opener e \<longrightarrow> pause_door_check gs' = pause_door_check gs \<and> relay' = relay)
       \<and> (\<not> is_motion_iter e \<longrightarrow> motion gs' = motion gs \<and> motion_timeout gs' = motion_timeout gs)"
proof (cases e)
  case (Motion_iter pir t1 t2)
  with assms show ?thesis
    by (auto simp add: get_motion_state_iter_def Let_def split: if_splits)
next
  case (Door_iter c d)
  with assms show ?thesis
    by (auto simp add: get_door_state_iter_def Let_def split: if_splits)
next
  case (Policy_begin h now)
  with assms show ?thesis
    by (auto split: sum.splits policy_point.splits dest: check_open_time_begin_Returned)
next
  case (Policy_resume c now)
  with assms show ?thesis
    by (auto simp add: check_open_time_resume_def split: if_splits)
next
  case (Opener pc)
  with assms show ?thesis by (cases pc) auto
qed (use assms in \<open>auto split: if_splits\<close>)

lemma get_motion_state_iter_known:
  "motion gs \<noteq> None \<or> (motion_timeout gs = 0 \<and> 0 < t2) \<Longrightarrow>
     motion (get_motion_state_iter cfg pir t1 t2 gs) \<noteq> None"
  by (auto simp add: get_motion_state_iter_def Let_def)

lemma get_motion_state_iter_inv:
  "(motion gs = None \<longrightarrow> motion_timeout gs = 0) \<Longrightarrow>
     (motion (get_motion_state_iter cfg pir t1 t2 gs) = None \<longrightarrow>
      motion_timeout (get_motion_state_iter cfg pir t1 t2 gs) = 0)"
  by (auto simp add: get_motion_state_iter_def Let_def)

lemma step_motion_inv:
  assumes "step cfg p e (gs, relay) = Some (gs', relay')"
    and "motion gs = None \<longrightarrow> motion_timeout gs = 0"
  shows "motion gs' = None \<longrightarrow> motion_timeout gs' = 0"
proof (cases "is_motion_iter e")
  case True
  then obtain pir t1 t2 where "e = Motion_iter pir t1 t2" by (cases e) auto
  with assms show ?thesis using get_motion_state_iter_inv [of gs cfg pir t1 t2] by auto
next
  case False
  with step_frame [OF assms(1)] assms(2) show ?thesis by simp
qed

lemma step_motion_known:
  assumes "step cfg p e (gs, relay) = Some (gs', relay')" and "motion gs \<noteq> None"
  shows "motion gs' \<noteq> None"
proof (cases "is_motion_iter e")
  case True
  then obtain pir t1 t2 where "e = Motion_iter pir t1 t2" by (cases e) auto
  with assms show ?thesis using get_motion_state_iter_known [of gs t2 cfg pir t1] by auto
next
  case False
  with step_frame [OF assms(1)] assms(2) show ?thesis by simp
qed

lemma run_motion_inv:
  "run cfg p es (gs, relay) = Some (gs', relay') \<Longrightarrow>
   (motion gs = None \<longrightarrow> motion_timeout gs = 0) \<Longrightarrow>
   (motion gs' = None \<longrightarrow> motion_timeout gs' = 0)"
proof (induction es arbitrary: gs relay)
  case Nil
  then show ?case by simp
next
  case (Cons e es)
  from Cons.prems(1) obtain gs1 relay1 where
    s: "step cfg p e (gs, relay) = Some (gs1, relay1)"
    and r: "run cfg p es (gs1, relay1) = Some (gs', relay')"
    by (auto split: option.splits)
  show ?case by (rule Cons.IH [OF r step_motion_inv [OF s Cons.prems(2)]])
qed

lemma run_motion_known:
  "run cfg p es (gs, relay) = Some (gs', relay') \<Longrightarrow> motion gs \<noteq> None \<Longrightarrow> motion gs' \<noteq> None"
proof (induction es arbitrary: gs relay)
  case Nil
  then show ?case by simp
next
  case (Cons e es)
  from Cons.prems(1) obtain gs1 relay1 where
    s: "step cfg p e (gs, relay) = Some (gs1, relay1)"
    and r: "run cfg p es (gs1, relay1) = Some (gs', relay')"
    by (auto split: option.splits)
  show ?case by (rule Cons.IH [OF r step_motion_known [OF s Cons.prems(2)]])
qed

lemma run_no_motion_iter:
  "run cfg p es (gs, relay) = Some (gs', relay') \<Longrightarrow> \<forall>e\<in>set es. \<not> is_motion_iter e \<Longrightarrow>
     motion gs' = motion gs \<and> motion_timeout gs' = motion_timeout gs"
proof (induction es arbitrary: gs relay)
  case Nil
  then show ?case by simp
next
  case (Cons e es)
  from Cons.prems(1) obtain gs1 relay1 where
    s: "step cfg p e (gs, relay) = Some (gs1, relay1)"
    and r: "run cfg p es (gs1, relay1) = Some (gs', relay')"
    by (auto split: option.splits)
  from Cons.prems(2) have e: "\<not> is_motion_iter e" and es: "\<forall>e\<in>set es. \<not> is_motion_iter e"
    by simp_all
  from step_frame [OF s] e Cons.IH [OF r es] show ?case by simp
qed

lemma run_no_opener:
  "run cfg p es (gs, relay) = Some (gs', relay') \<Longrightarrow> \<forall>e\<in>set es. \<not> is_opener e \<Longrightarrow>
     pause_door_check gs' = pause_door_check gs \<and> relay' = relay"
proof (induction es arbitrary: gs relay)
  case Nil
  then show ?case by simp
next
  case (Cons e es)
  from Cons.prems(1) obtain gs1 relay1 where
    s: "step cfg p e (gs, relay) = Some (gs1, relay1)"
    and r: "run cfg p es (gs1, relay1) = Some (gs', relay')"
    by (auto split: option.splits)
  from Cons.prems(2) have e: "\<not> is_opener e" and es: "\<forall>e\<in>set es. \<not> is_opener e"
    by simp_all
  from step_frame [OF s] e Cons.IH [OF r es] show ?case by simp
qed

lemma task_run_snoc:
  "task_run t (bs @ [b]) p =
     (case task_run t bs p of (p', n) \<Rightarrow>
      case resume_task t b p' of (p'', evaluated) \<Rightarrow> (p'', n + (if evaluated then 1 else 0)))"
  by (induction bs arbitrary: p) (auto split: prod.splits)

lemma schedule_snoc: "schedule (picks @ [pick]) s = resume_nth pick (schedule picks s)"
  by (induction picks arbitrary: s) simp_all

lemma resume_nth_names: "map fst (fst (resume_nth pick s)) = map fst (fst s)"
  by (auto simp add: resume_nth_def map_update list_update_same_conv split: prod.splits)

lemma resume_nth_other:
  "j \<noteq> fst pick \<Longrightarrow> fst (resume_nth pick s) ! j = fst s ! j"
  by (auto simp add: resume_nth_def split: prod.splits)

lemma resume_nth_same:
  "i < length tasks \<Longrightarrow>
     fst (resume_nth (i, b) (tasks, evals)) ! i =
       (fst (tasks ! i), fst (resume_task (fst (tasks ! i)) b (snd (tasks ! i))))"
  by (auto simp add: resume_nth_def split: prod.splits)

lemma resume_nth_count:
  "count_list (snd (resume_nth (i, b) (tasks, evals))) t =
     count_list evals t +
       (if i < length tasks \<and> fst (tasks ! i) = t
           \<and> snd (resume_task t b (snd (tasks ! i))) then 1 else 0)"
  by (auto simp add: resume_nth_def split: prod.splits)

lemma schedule_tracks_task:
  assumes "distinct ts" and "k < length ts"
  shows "map fst (fst (schedule picks (create_tasks ts, []))) = ts
       \<and> snd (fst (schedule picks (create_tasks ts, [])) ! k)
           = fst (task_run (ts ! k) (picks_of k picks) At_entry)
       \<and> count_list (snd (schedule picks (create_tasks ts, []))) (ts ! k)
           = snd (task_run (ts ! k) (picks_of k picks) At_entry)"
proof (induction picks rule: rev_induct)
  case Nil
  from assms show ?case
    by (simp add: create_tasks_def picks_of_def comp_def)
next
  case (snoc pick picks)
  obtain i b where pick: "pick = (i, b)" by (cases pick)
  obtain tasks evals where s: "schedule picks (create_tasks ts, []) = (tasks, evals)"
    by (cases "schedule picks (create_tasks ts, [])")
  from snoc s have names: "map fst tasks = ts"
    and pos: "snd (tasks ! k) = fst (task_run (ts ! k) (picks_of k picks) At_entry)"
    and cnt: "count_list evals (ts ! k) = snd (task_run (ts ! k) (picks_of k picks) At_entry)"
    by simp_all
  from names have len: "length tasks = length ts" by (metis length_map)
  from names have nm: "\<And>j. j < length ts \<Longrightarrow> fst (tasks ! j) = ts ! j"
    by (metis len nth_map)
  have step: "schedule (picks @ [pick]) (create_tasks ts, []) = resume_nth (i, b) (tasks, evals)"
    by (simp add: schedule_snoc s pick)
  have names': "map fst (fst (resume_nth (i, b) (tasks, evals))) = ts"
    using names by (simp add: resume_nth_names)
  show ?case
  proof (cases "i = k")
    case True
    then have po: "picks_of k (picks @ [pick]) = picks_of k picks @ [b]"
      by (simp add: picks_of_def pick)
    from True assms(2) len have "fst (resume_nth (i, b) (tasks, evals)) ! k =
        (fst (tasks ! k), fst (resume_task (fst (tasks ! k)) b (snd (tasks ! k))))"
      by (simp add: resume_nth_same)
    moreover have "count_list (snd (resume_nth (i, b) (tasks, evals))) (ts ! k) =
        count_list evals (ts ! k) + (if snd (resume_task (ts ! k) b (snd (tasks ! k))) then 1 else 0)"
      using True assms(2) len nm [OF assms(2)] by (simp add: resume_nth_count)
    ultimately show ?thesis
      unfolding step po task_run_snoc using names' pos cnt nm [OF assms(2)]
      by (simp split: prod.splits)
  next
    case False
    then have po: "picks_of k (picks @ [pick]) = picks_of k picks"
      by (simp add: picks_of_def pick)
    from False have "fst (resume_nth (i, b) (tasks, evals)) ! k = tasks ! k"
      using resume_nth_other [of k "(i, b)" "(tasks, evals)"] by simp
    moreover have "count_list (snd (resume_nth (i, b) (tasks, evals))) (ts ! k) =
        count_list evals (ts ! k)"
    proof -
      have "\<not> (i < length tasks \<and> fst (tasks ! i) = ts ! k)"
      proof
        assume a: "i < length tasks \<and> fst (tasks ! i) = ts ! k"
        with len nm [of i] have "ts ! i = ts ! k" by simp
        with assms a len have "i = k" by (simp add: nth_eq_iff_index_eq)
        with False show False by simp
      qed
      then show ?thesis by (auto simp add: resume_nth_count)
    qed
    ultimately show ?thesis
      unfolding step po using names' pos cnt by simp
  qed
qed

lemma task_run_loops:
  "loops_forever t \<Longrightarrow> p \<noteq> Finished \<Longrightarrow>
     task_run t bs p = (if bs = [] then p else In_loop, length bs)"
proof (induction bs arbitrary: p)
  case Nil
  then show ?case by simp
next
  case (Cons b bs)
  from Cons.prems have r: "resume_task t b p = (In_loop, True)"
    by (cases t; cases p) simp_all
  from Cons.IH [OF Cons.prems(1), of In_loop] r show ?case by simp
qed

lemma task_run_Finished: "task_run t bs Finished = (Finished, 0)"
  by (induction bs) simp_all

lemma task_run_Update_rtc:
  "task_run Update_rtc bs At_entry = (if bs = [] then (At_entry, 0) else (Finished, 1))"
  by (cases bs) (simp_all add: task_run_Finished)

lemma task_run_Check_open_time:
  "task_run Check_open_time bs At_entry =
     (case bs of
        [] \<Rightarrow> (At_entry, 0)
      | [b] \<Rightarrow> (if b then At_sleep else Finished, 1)
      | b # b' # bs' \<Rightarrow> (Finished, 1))"
  by (cases bs; cases "tl bs") (auto simp add: task_run_Finished)

lemma main_facts:
  "distinct main" "length main = 8" "count_list main Check_open_time = 1"
  "count_list main Update_rtc = 1"
  by (simp_all add: main_def)

section \<open>The messaging link\<close>

text \<open>
  C8, as the claim states it, fails where the error path restarts the device: after a
  transport-level failure of \<open>is_connected\<close> the device is reset at once, and neither
  \<open>publish\<close> nor \<open>loop\<close> is attempted.
\<close>

theorem link_attempt_skipped_counterexample:
  "publish_to_mqtt \<lparr>is_connected = Raises_OSError, reconnect = Ok, publish = Ok, loop = Ok\<rparr>
      ''garage/garage-state'' (Text ''x'') = [Is_connected, Reset]
   \<and> publishes (publish_to_mqtt
        \<lparr>is_connected = Raises_OSError, reconnect = Ok, publish = Ok, loop = Ok\<rparr>
        ''garage/garage-state'' (Text ''x'')) = []
   \<and> mqtt_client_loop_iter \<lparr>is_connected = Raises_OSError, reconnect = Ok, publish = Ok, loop = Ok\<rparr>
       = [Is_connected, Reset]"
  by (simp add: publish_to_mqtt_def mqtt_client_loop_iter_def)

text \<open>
  C8, amended. For every call of \<open>publish_to_mqtt\<close> and every iteration of
  \<open>mqtt_client_loop\<close>: a protocol-level failure of \<open>is_connected\<close> leads to exactly
  one reconnect attempt, and a reconnect that fails (at either level) restarts the
  device; a transport-level failure of \<open>is_connected\<close> restarts the device at once,
  with no reconnect attempt; when the error path has not restarted the device, exactly
  one publish (or loop) attempt is made, and its failure at either level restarts the
  device; there is never more than one reconnect attempt, and the call returns without
  a restart only if the publish (or loop) attempt succeeded.
\<close>

theorem link_recovery_policy:
  "(is_connected c = Raises_MMQTTException \<longrightarrow>
      count_list (publish_to_mqtt c topic m) Reconnect = 1
      \<and> count_list (mqtt_client_loop_iter c) Reconnect = 1)
   \<and> (is_connected c = Raises_MMQTTException \<and> reconnect c \<noteq> Ok \<longrightarrow>
      publish_to_mqtt c topic m = [Is_connected, Reconnect, Reset]
      \<and> mqtt_client_loop_iter c = [Is_connected, Reconnect, Reset])
   \<and> (is_connected c = Raises_OSError \<longrightarrow>
      publish_to_mqtt c topic m = [Is_connected, Reset]
      \<and> mqtt_client_loop_iter c = [Is_connected, Reset])
   \<and> (is_connected c = Ok \<or> (is_connected c = Raises_MMQTTException \<and> reconnect c = Ok) \<longrightarrow>
      count_list (publish_to_mqtt c topic m) (Publish topic m) = 1
      \<and> (restarted (publish_to_mqtt c topic m) \<longleftrightarrow> publish c \<noteq> Ok)
      \<and> count_list (mqtt_client_loop_iter c) Loop = 1
      \<and> (restarted (mqtt_client_loop_iter c) \<longleftrightarrow> loop c \<noteq> Ok))
   \<and> count_list (publish_to_mqtt c topic m) Reconnect \<le> 1
   \<and> count_list (mqtt_client_loop_iter c) Reconnect \<le> 1
   \<and> (\<not> restarted (publish_to_mqtt c topic m) \<longrightarrow>
        publish c = Ok \<and> (is_connected c = Raises_MMQTTException \<longrightarrow> reconnect c = Ok)
        \<and> is_connected c \<noteq> Raises_OSError)
   \<and> (\<not> restarted (mqtt_client_loop_iter c) \<longrightarrow>
        loop c = Ok \<and> (is_connected c = Raises_MMQTTException \<longrightarrow> reconnect c = Ok)
        \<and> is_connected c \<noteq> Raises_OSError)"
proof -
  have pub: "count_list (publish_to_mqtt c topic m) Reconnect \<le> 1"
    "is_connected c = Raises_MMQTTException \<Longrightarrow> count_list (publish_to_mqtt c topic m) Reconnect = 1"
    "is_connected c = Ok \<or> (is_connected c = Raises_MMQTTException \<and> reconnect c = Ok) \<Longrightarrow>
       count_list (publish_to_mqtt c topic m) (Publish topic m) = 1"
    by (cases "is_connected c"; cases "reconnect c"; cases "publish c";
        simp add: publish_to_mqtt_def)+
  have lp: "count_list (mqtt_client_loop_iter c) Reconnect \<le> 1"
    "is_connected c = Raises_MMQTTException \<Longrightarrow> count_list (mqtt_client_loop_iter c) Reconnect = 1"
    "is_connected c = Ok \<or> (is_connected c = Raises_MMQTTException \<and> reconnect c = Ok) \<Longrightarrow>
       count_list (mqtt_client_loop_iter c) Loop = 1"
    by (cases "is_connected c"; cases "reconnect c"; cases "loop c";
        simp add: mqtt_client_loop_iter_def)+
  have fail: "is_connected c = Raises_MMQTTException \<and> reconnect c \<noteq> Ok \<Longrightarrow>
      publish_to_mqtt c topic m = [Is_connected, Reconnect, Reset]
      \<and> mqtt_client_loop_iter c = [Is_connected, Reconnect, Reset]"
    "is_connected c = Raises_OSError \<Longrightarrow>
      publish_to_mqtt c topic m = [Is_connected, Reset]
      \<and> mqtt_client_loop_iter c = [Is_connected, Reset]"
    by (simp_all add: publish_to_mqtt_cases mqtt_client_loop_iter_cases)
  show ?thesis
    using pub lp fail restarted_publish_to_mqtt [of c topic m] restarted_mqtt_client_loop_iter [of c]
    by (cases "is_connected c") auto
qed

theorem link_recovery_policy_witness:
  "publish_to_mqtt
      \<lparr>is_connected = Raises_MMQTTException, reconnect = Raises_OSError, publish = Ok, loop = Ok\<rparr>
      ''garage/system'' (Text ''x'') = [Is_connected, Reconnect, Reset]
   \<and> mqtt_client_loop_iter
      \<lparr>is_connected = Raises_OSError, reconnect = Ok, publish = Ok, loop = Ok\<rparr>
      = [Is_connected, Reset]
   \<and> publish_to_mqtt
      \<lparr>is_connected = Raises_MMQTTException, reconnect = Ok, publish = Raises_OSError, loop = Ok\<rparr>
      ''garage/system'' (Text ''x'')
      = [Is_connected, Reconnect, Publish ''garage/system'' (Text ''x''), Reset]
   \<and> publish_to_mqtt \<lparr>is_connected = Ok, reconnect = Ok, publish = Ok, loop = Ok\<rparr> ''garage/system'' (Text ''x'')
      = [Is_connected, Publish ''garage/system'' (Text ''x'')]
   \<and> \<not> restarted (publish_to_mqtt \<lparr>is_connected = Ok, reconnect = Ok, publish = Ok, loop = Ok\<rparr> ''garage/system'' (Text ''x''))
   \<and> mqtt_client_loop_iter \<lparr>is_connected = Ok, reconnect = Ok, publish = Ok, loop = Ok\<rparr> = [Is_connected, Loop, Sleep 1]
   \<and> \<not> restarted (mqtt_client_loop_iter \<lparr>is_connected = Ok, reconnect = Ok, publish = Ok, loop = Ok\<rparr>)"
  using
    link_recovery_policy [of
      "\<lparr>is_connected = Raises_MMQTTException, reconnect = Raises_OSError, publish = Ok, loop = Ok\<rparr>"
      "''garage/system''" "Text ''x''"]
    link_recovery_policy [of
      "\<lparr>is_connected = Raises_OSError, reconnect = Ok, publish = Ok, loop = Ok\<rparr>"
      "''garage/system''" "Text ''x''"]
    link_recovery_policy [of
      "\<lparr>is_connected = Raises_MMQTTException, reconnect = Ok, publish = Raises_OSError, loop = Ok\<rparr>"
      "''garage/system''" "Text ''x''"]
    link_recovery_policy [of "\<lparr>is_connected = Ok, reconnect = Ok, publish = Ok, loop = Ok\<rparr>" "''garage/system''" "Text ''x''"]
  by (simp add: publish_to_mqtt_def mqtt_client_loop_iter_def restarted_def)

section \<open>The remote request handler\<close>

text \<open>
  C4, as the claim states it, fails on a redelivery: the handler keeps no record of the
  requests it has served, so the same request delivered twice creates two actuator
  tasks.
\<close>

theorem message_redelivered_counterexample:
  "count_list
     (message ''garage'' \<lparr>is_connected = Ok, reconnect = Ok, publish = Ok, loop = Ok\<rparr>
        ''garage/door-request'' ''True''
      @ message ''garage'' \<lparr>is_connected = Ok, reconnect = Ok, publish = Ok, loop = Ok\<rparr>
        ''garage/door-request'' ''True'')
     Create_task_activate_opener = 2"
  by (simp add: message_def MQTT_DOOR_REQUEST_def publish_to_mqtt_def restarted_def)

text \<open>
  C4, amended. Each delivery of the payload "True" on the door-request topic, unless the
  link restarts the device while acknowledging, publishes "False" to that topic exactly
  once and creates exactly one actuator task; a delivery whose acknowledgment restarts
  the device creates none; any other topic or payload does nothing. A delivery never
  publishes or creates a task more than once, but the handler does not recognise a
  redelivered request: \<open>n\<close> deliveries create \<open>n\<close> tasks.
\<close>

theorem message_schedules_per_delivery:
  "(topic = MQTT_DOOR_REQUEST mqtt_topic \<and> msg = ''True'' \<and> \<not> restarted (message mqtt_topic c topic msg) \<longrightarrow>
      publishes (message mqtt_topic c topic msg) = [(MQTT_DOOR_REQUEST mqtt_topic, Text ''False'')]
      \<and> count_list (message mqtt_topic c topic msg) Create_task_activate_opener = 1
      \<and> count_list (concat (replicate n (message mqtt_topic c topic msg)))
           Create_task_activate_opener = n)
   \<and> (restarted (message mqtt_topic c topic msg) \<longrightarrow>
        count_list (message mqtt_topic c topic msg) Create_task_activate_opener = 0)
   \<and> (topic \<noteq> MQTT_DOOR_REQUEST mqtt_topic \<or> msg \<noteq> ''True'' \<longrightarrow>
        message mqtt_topic c topic msg = [])
   \<and> length (publishes (message mqtt_topic c topic msg)) \<le> 1
   \<and> count_list (message mqtt_topic c topic msg) Create_task_activate_opener \<le> 1"
proof (cases "topic = MQTT_DOOR_REQUEST mqtt_topic \<and> msg = ''True''")
  case False
  then have "message mqtt_topic c topic msg = []"
    by (auto simp add: message_def)
  with False show ?thesis by (auto simp add: restarted_def)
next
  case True
  let ?tr = "publish_to_mqtt c (MQTT_DOOR_REQUEST mqtt_topic) (Text ''False'')"
  show ?thesis
  proof (cases "restarted ?tr")
    case r: True
    with True have eq: "message mqtt_topic c topic msg = ?tr"
      by (simp add: message_def)
    show ?thesis
      using True r unfolding eq
      by (simp add: count_create_task_publish_to_mqtt publishes_publish_to_mqtt)
  next
    case r: False
    with True have eq: "message mqtt_topic c topic msg = ?tr @ [Create_task_activate_opener]"
      by (simp add: message_def)
    have nr: "\<not> restarted (?tr @ [Create_task_activate_opener])"
      using r by (simp add: restarted_def)
    have p: "publishes ?tr = [(MQTT_DOOR_REQUEST mqtt_topic, Text ''False'')]"
      using r by (auto simp add: publishes_publish_to_mqtt restarted_publish_to_mqtt)
    show ?thesis
      using True nr p unfolding eq
      by (simp add: count_create_task_publish_to_mqtt publishes_append
          count_list_concat_replicate)
  qed
qed

theorem message_schedules_per_delivery_witness:
  "publishes (message ''garage'' \<lparr>is_connected = Ok, reconnect = Ok, publish = Ok, loop = Ok\<rparr> ''garage/door-request'' ''True'')
      = [(''garage/door-request'', Text ''False'')]
   \<and> count_list (message ''garage'' \<lparr>is_connected = Ok, reconnect = Ok, publish = Ok, loop = Ok\<rparr> ''garage/door-request'' ''True'')
        Create_task_activate_opener = 1
   \<and> count_list (concat (replicate 3 (message ''garage'' \<lparr>is_connected = Ok, reconnect = Ok, publish = Ok, loop = Ok\<rparr> ''garage/door-request'' ''True'')))
        Create_task_activate_opener = 3
   \<and> message ''garage'' \<lparr>is_connected = Ok, reconnect = Ok, publish = Ok, loop = Ok\<rparr> ''garage/door-request'' ''False'' = []
   \<and> restarted (message ''garage''
        \<lparr>is_connected = Raises_OSError, reconnect = Ok, publish = Ok, loop = Ok\<rparr>
        ''garage/door-request'' ''True'')
   \<and> count_list (message ''garage''
        \<lparr>is_connected = Raises_OSError, reconnect = Ok, publish = Ok, loop = Ok\<rparr>
        ''garage/door-request'' ''True'') Create_task_activate_opener = 0"
  using
    message_schedules_per_delivery [of "''garage/door-request''" "''garage''" "''True''" "\<lparr>is_connected = Ok, reconnect = Ok, publish = Ok, loop = Ok\<rparr>" 3]
    message_schedules_per_delivery [of "''garage/door-request''" "''garage''" "''False''" "\<lparr>is_connected = Ok, reconnect = Ok, publish = Ok, loop = Ok\<rparr>" 3]
    message_schedules_per_delivery [of "''garage/door-request''" "''garage''" "''True''"
      "\<lparr>is_connected = Raises_OSError, reconnect = Ok, publish = Ok, loop = Ok\<rparr>" 3]
  by (simp add: message_def MQTT_DOOR_REQUEST_def publish_to_mqtt_def restarted_def)

section \<open>The relay actuator\<close>

text \<open>
  C7. A call of \<open>activate_opener\<close> first sets \<open>pause_door_check\<close> and drives the relay
  high, then sleeps 2 seconds; it then drives the relay low (the flag untouched) and
  sleeps \<open>DOOR_CLOSE_DELAY\<close> seconds (12 as shipped); it then clears \<open>pause_door_check\<close>
  and returns. The flag is false when the call returns whatever the state it resumes
  on, so whatever the door did; run without interruption the call leaves the state with
  the flag false and the relay low. The flag is false at initialization, and no piece
  of any other task writes it: it is the same after every event that is not a piece of
  \<open>activate_opener\<close>, and after every execution made of such events.
\<close>

theorem activate_opener_pause_cycle:
  "pause_door_check (fst (fst (activate_opener_resume cfg Opener_entry (gs, relay))))
   \<and> snd (fst (activate_opener_resume cfg Opener_entry (gs, relay)))
   \<and> snd (activate_opener_resume cfg Opener_entry (gs, relay)) = (Opener_pulse, Some 2)
   \<and> \<not> snd (fst (activate_opener_resume cfg Opener_pulse (gs, relay)))
   \<and> pause_door_check (fst (fst (activate_opener_resume cfg Opener_pulse (gs, relay))))
       = pause_door_check gs
   \<and> snd (activate_opener_resume cfg Opener_pulse (gs, relay))
       = (Opener_settle, Some (DOOR_CLOSE_DELAY cfg))
   \<and> DOOR_CLOSE_DELAY config = 12
   \<and> \<not> pause_door_check (fst (fst (activate_opener_resume cfg Opener_settle (gs, relay))))
   \<and> snd (activate_opener_resume cfg Opener_settle (gs, relay)) = (Opener_returned, None)
   \<and> activate_opener cfg (gs, relay)
       = ((gs\<lparr>pause_door_check := False\<rparr>, False), [2, DOOR_CLOSE_DELAY cfg])
   \<and> \<not> pause_door_check Garage_state_init
   \<and> (\<not> is_opener e \<and> step cfg mqtt_topic e (gs, relay) = Some (gs', relay') \<longrightarrow>
        pause_door_check gs' = pause_door_check gs)
   \<and> ((\<forall>e\<in>set es. \<not> is_opener e) \<and> run cfg mqtt_topic es (gs, relay) = Some (gs'', relay'') \<longrightarrow>
        pause_door_check gs'' = pause_door_check gs)"
proof -
  have whole: "activate_opener cfg (gs, relay)
       = ((gs\<lparr>pause_door_check := False\<rparr>, False), [2, DOOR_CLOSE_DELAY cfg])"
    by (simp add: activate_opener_def List.map_filter_def)
  have frame: "\<not> is_opener e \<and> step cfg mqtt_topic e (gs, relay) = Some (gs', relay') \<longrightarrow>
        pause_door_check gs' = pause_door_check gs"
    using step_frame [of cfg mqtt_topic e gs relay gs' relay'] by blast
  have frames: "(\<forall>e\<in>set es. \<not> is_opener e) \<and> run cfg mqtt_topic es (gs, relay) = Some (gs'', relay'') \<longrightarrow>
        pause_door_check gs'' = pause_door_check gs"
    using run_no_opener [of cfg mqtt_topic es gs relay gs'' relay''] by blast
  from whole frame frames show ?thesis
    by (simp add: config_simps Garage_state_init_def)
qed

theorem activate_opener_pause_cycle_witness:
  "\<not> is_opener (Door_iter \<lparr>is_connected = Ok, reconnect = Ok, publish = Ok, loop = Ok\<rparr> 50)
   \<and> step config ''garage'' (Door_iter \<lparr>is_connected = Ok, reconnect = Ok, publish = Ok, loop = Ok\<rparr> 50)
        (Garage_state_init\<lparr>pause_door_check := True\<rparr>, True)
      = Some (Garage_state_init\<lparr>pause_door_check := True\<rparr>, True)
   \<and> run config ''garage'' [Motion_iter True 1 1, Policy_resume \<lparr>is_connected = Ok, reconnect = Ok, publish = Ok, loop = Ok\<rparr> 3]
        (Garage_state_init\<lparr>pause_door_check := True\<rparr>, True)
      = Some (\<lparr>door_error = False, motion = Some True, door_status = PyCoroutine,
               motion_timeout = 301, pause_door_check = True\<rparr>, True)
   \<and> activate_opener config (Garage_state_init\<lparr>pause_door_check := True\<rparr>, True)
      = ((Garage_state_init\<lparr>pause_door_check := False\<rparr>, False), [2, 12])"
  using
    activate_opener_pause_cycle [of config "Garage_state_init\<lparr>pause_door_check := True\<rparr>" True
      "Door_iter \<lparr>is_connected = Ok, reconnect = Ok, publish = Ok, loop = Ok\<rparr> 50" "''garage''" "Garage_state_init\<lparr>pause_door_check := True\<rparr>" True
      "[Motion_iter True 1 1, Policy_resume \<lparr>is_connected = Ok, reconnect = Ok, publish = Ok, loop = Ok\<rparr> 3]"
      "\<lparr>door_error = False, motion = Some True, door_status = PyCoroutine,
        motion_timeout = 301, pause_door_check = True\<rparr>" True]
  by (simp add: get_door_state_iter_def get_motion_state_iter_def check_open_time_resume_def
      publish_to_mqtt_def restarted_def Garage_state_init_def config_simps Let_def
      activate_opener_def List.map_filter_def)

section \<open>The motion monitor\<close>

text \<open>
  C10. \<open>motion_timeout\<close> starts at 0, so, the monotonic clock being positive, the first
  iteration of \<open>get_motion_state\<close> sets \<open>motion\<close> to \<open>False\<close> when the sensor reads
  inactive, and to a known value in any case; this holds of the iteration run on the
  initial state and of the first iteration of any execution. In every execution
  \<open>motion\<close> is not \<open>None\<close> at any point after an iteration of the monitor whose clock
  reading is positive, and it is \<open>None\<close>, so that the policy starts no close, as long
  as no iteration of the monitor has run.
\<close>

theorem motion_known_after_first_iteration:
  "(0 < t2 \<longrightarrow>
      motion (get_motion_state_iter cfg False t1 t2 Garage_state_init) = Some False
      \<and> motion (get_motion_state_iter cfg pir t1 t2 Garage_state_init) \<noteq> None)
   \<and> (0 < t2 \<and> (\<forall>e\<in>set es1. \<not> is_motion_iter e)
        \<and> run cfg mqtt_topic (es1 @ [Motion_iter False t1 t2]) (Garage_state_init, relay)
            = Some (gs1, relay1)
      \<longrightarrow> motion gs1 = Some False)
   \<and> (0 < t2
        \<and> run cfg mqtt_topic (es1 @ Motion_iter pir t1 t2 # es2) (Garage_state_init, relay)
            = Some (gs2, relay2)
      \<longrightarrow> motion gs2 \<noteq> None)
   \<and> ((\<forall>e\<in>set es1. \<not> is_motion_iter e)
        \<and> run cfg mqtt_topic es1 (Garage_state_init, relay) = Some (gs0, relay0)
      \<longrightarrow> motion gs0 = None
          \<and> \<not> close_initiated (check_open_time_begin cfg tm_hour now gs0))"
proof -
  have init: "motion Garage_state_init = None" "motion_timeout Garage_state_init = 0"
    by (simp_all add: Garage_state_init_def)
  have a: "0 < t2 \<Longrightarrow> motion (get_motion_state_iter cfg False t1 t2 Garage_state_init) = Some False"
    by (simp add: get_motion_state_iter_def init)
  have b: "0 < t2 \<Longrightarrow> motion (get_motion_state_iter cfg pir t1 t2 Garage_state_init) \<noteq> None"
    by (rule get_motion_state_iter_known) (simp add: init)
  have c: "motion gs1 = Some False"
    if "0 < t2" "\<forall>e\<in>set es1. \<not> is_motion_iter e"
      "run cfg mqtt_topic (es1 @ [Motion_iter False t1 t2]) (Garage_state_init, relay) = Some (gs1, relay1)"
  proof -
    from that(3) obtain gs relay' where
      r: "run cfg mqtt_topic es1 (Garage_state_init, relay) = Some (gs, relay')"
      and s: "gs1 = get_motion_state_iter cfg False t1 t2 gs"
      by (auto simp add: run_append split: option.splits)
    from run_no_motion_iter [OF r that(2)] init have "motion_timeout gs = 0" by simp
    with s that(1) show ?thesis by (simp add: get_motion_state_iter_def)
  qed
  have d: "motion gs2 \<noteq> None"
    if "0 < t2"
      "run cfg mqtt_topic (es1 @ Motion_iter pir t1 t2 # es2) (Garage_state_init, relay) = Some (gs2, relay2)"
  proof -
    from that(2) obtain gs relay' where
      r: "run cfg mqtt_topic es1 (Garage_state_init, relay) = Some (gs, relay')"
      and r2: "run cfg mqtt_topic es2 (get_motion_state_iter cfg pir t1 t2 gs, relay') = Some (gs2, relay2)"
      by (auto simp add: run_append split: option.splits)
    from run_motion_inv [OF r] init have "motion gs = None \<longrightarrow> motion_timeout gs = 0" by simp
    with that(1) have "motion (get_motion_state_iter cfg pir t1 t2 gs) \<noteq> None"
      by (intro get_motion_state_iter_known) auto
    with run_motion_known [OF r2] show ?thesis by simp
  qed
  have e: "motion gs0 = None \<and> \<not> close_initiated (check_open_time_begin cfg tm_hour now gs0)"
    if "\<forall>e\<in>set es1. \<not> is_motion_iter e"
      "run cfg mqtt_topic es1 (Garage_state_init, relay) = Some (gs0, relay0)"
  proof -
    from run_no_motion_iter [OF that(2) that(1)] init have "motion gs0 = None" by simp
    then show ?thesis by (simp add: check_open_time_begin_def close_initiated_def)
  qed
  from a b c d e show ?thesis by blast
qed

theorem motion_known_after_first_iteration_witness:
  "(0::real) < 5
   \<and> \<not> is_motion_iter (Door_iter \<lparr>is_connected = Ok, reconnect = Ok, publish = Ok, loop = Ok\<rparr> 50)
   \<and> run config ''garage'' ([Door_iter \<lparr>is_connected = Ok, reconnect = Ok, publish = Ok, loop = Ok\<rparr> 50] @ [Motion_iter False 5 5])
        (Garage_state_init, False)
      = Some (\<lparr>door_error = False, motion = Some False, door_status = PyStr ''Open'',
               motion_timeout = 0, pause_door_check = False\<rparr>, False)
   \<and> run config ''garage''
        ([Door_iter \<lparr>is_connected = Ok, reconnect = Ok, publish = Ok, loop = Ok\<rparr> 50] @ Motion_iter False 5 5 # [Policy_begin 22 6, Opener Opener_entry])
        (Garage_state_init, False)
      = Some (\<lparr>door_error = False, motion = Some False, door_status = PyStr ''Open'',
               motion_timeout = 0, pause_door_check = True\<rparr>, True)
   \<and> run config ''garage'' [Door_iter \<lparr>is_connected = Ok, reconnect = Ok, publish = Ok, loop = Ok\<rparr> 50] (Garage_state_init, False)
      = Some (\<lparr>door_error = False, motion = None, door_status = PyStr ''Open'',
               motion_timeout = 0, pause_door_check = False\<rparr>, False)
   \<and> \<not> close_initiated (check_open_time_begin config 22 6
        \<lparr>door_error = False, motion = None, door_status = PyStr ''Open'',
         motion_timeout = 0, pause_door_check = False\<rparr>)"
  using
    motion_known_after_first_iteration [of 5 config 5 False "[Door_iter \<lparr>is_connected = Ok, reconnect = Ok, publish = Ok, loop = Ok\<rparr> 50]" "''garage''" False
      "\<lparr>door_error = False, motion = Some False, door_status = PyStr ''Open'',
        motion_timeout = 0, pause_door_check = False\<rparr>" False
      "[Policy_begin 22 6, Opener Opener_entry]"
      "\<lparr>door_error = False, motion = Some False, door_status = PyStr ''Open'',
        motion_timeout = 0, pause_door_check = True\<rparr>" True
      "\<lparr>door_error = False, motion = None, door_status = PyStr ''Open'',
        motion_timeout = 0, pause_door_check = False\<rparr>" False 22 6]
  by (simp add: get_door_state_iter_def get_motion_state_iter_def check_open_time_begin_def
      publish_to_mqtt_def restarted_def Garage_state_init_def config_simps close_initiated_def
      Let_def)

section \<open>The door position monitor\<close>

text \<open>
  C5. On an iteration of \<open>get_door_state\<close> that is not paused, \<open>door_status\<close> becomes
  "Open" if the distance read is strictly below \<open>DOOR_DISTANCE\<close> (90 as shipped) and
  "Closed" otherwise, and \<open>publish_to_mqtt\<close> is called, with the garage-state topic and
  the new snapshot, exactly when the new \<open>door_status\<close> differs from the one before:
  the link is used on this iteration if and only if the status changed, and when the
  link reaches its publish, the client's \<open>publish\<close> is called once with that topic and
  snapshot if the status changed and not at all otherwise.
\<close>

theorem get_door_state_classifies:
  assumes "\<not> pause_door_check gs"
  shows "door_status (fst (get_door_state_iter cfg mqtt_topic c distance gs)) =
           (if distance < of_int (DOOR_DISTANCE cfg) then PyStr ''Open'' else PyStr ''Closed'')
         \<and> DOOR_DISTANCE config = 90
         \<and> snd (get_door_state_iter cfg mqtt_topic c distance gs) =
             (if door_status (fst (get_door_state_iter cfg mqtt_topic c distance gs)) \<noteq> door_status gs
              then Sleep 0 # publish_to_mqtt c (MQTT_GARAGE_STATE mqtt_topic)
                                (json (fst (get_door_state_iter cfg mqtt_topic c distance gs)))
              else [Sleep 0])
         \<and> (Is_connected \<in> set (snd (get_door_state_iter cfg mqtt_topic c distance gs)) \<longleftrightarrow>
              door_status (fst (get_door_state_iter cfg mqtt_topic c distance gs)) \<noteq> door_status gs)
         \<and> (is_connected c = Ok \<or> (is_connected c = Raises_MMQTTException \<and> reconnect c = Ok) \<longrightarrow>
              publishes (snd (get_door_state_iter cfg mqtt_topic c distance gs)) =
                (if door_status (fst (get_door_state_iter cfg mqtt_topic c distance gs)) \<noteq> door_status gs
                 then [(MQTT_GARAGE_STATE mqtt_topic,
                        json (fst (get_door_state_iter cfg mqtt_topic c distance gs)))]
                 else []))"
  using assms
  by (simp add: get_door_state_iter_def Let_def config_simps publishes_publish_to_mqtt
      publish_to_mqtt_cases)

theorem get_door_state_classifies_witness:
  "\<not> pause_door_check Garage_state_init
   \<and> door_status (fst (get_door_state_iter config ''garage''
        \<lparr>is_connected = Ok, reconnect = Ok, publish = Ok, loop = Ok\<rparr> 50 Garage_state_init))
      = PyStr ''Open''
   \<and> publishes (snd (get_door_state_iter config ''garage''
        \<lparr>is_connected = Ok, reconnect = Ok, publish = Ok, loop = Ok\<rparr> 50 Garage_state_init))
      = [(''garage/garage-state'', Json_state (PyStr ''Open'') False None)]"
proof -
  have unpaused: "\<not> pause_door_check Garage_state_init"
    by (simp add: Garage_state_init_def)
  show ?thesis
    using unpaused
      get_door_state_classifies [OF unpaused, of config "''garage''"
        "\<lparr>is_connected = Ok, reconnect = Ok, publish = Ok, loop = Ok\<rparr>" 50]
    by (simp add: config_simps Garage_state_init_def json_def MQTT_GARAGE_STATE_def
        get_door_state_iter_def publish_to_mqtt_def)
qed

text \<open>
  C6. On an iteration of \<open>get_door_state\<close> with \<open>pause_door_check\<close> set, whatever the
  sensor would return, the state is left as it is (so \<open>door_status\<close> is not written)
  and the link is not used: the iteration consists of the yield alone.
\<close>

theorem get_door_state_paused:
  assumes "pause_door_check gs"
  shows "get_door_state_iter cfg mqtt_topic c distance gs = (gs, [Sleep 0])
         \<and> door_status (fst (get_door_state_iter cfg mqtt_topic c distance gs)) = door_status gs
         \<and> publishes (snd (get_door_state_iter cfg mqtt_topic c distance gs)) = []
         \<and> Is_connected \<notin> set (snd (get_door_state_iter cfg mqtt_topic c distance gs))"
  using assms by (simp add: get_door_state_iter_def)

theorem get_door_state_paused_witness:
  "pause_door_check (Garage_state_init\<lparr>door_status := PyStr ''Closed'', pause_door_check := True\<rparr>)
   \<and> get_door_state_iter config ''garage''
        \<lparr>is_connected = Ok, reconnect = Ok, publish = Ok, loop = Ok\<rparr> 50
        (Garage_state_init\<lparr>door_status := PyStr ''Closed'', pause_door_check := True\<rparr>)
      = (Garage_state_init\<lparr>door_status := PyStr ''Closed'', pause_door_check := True\<rparr>, [Sleep 0])"
proof -
  have paused:
    "pause_door_check (Garage_state_init\<lparr>door_status := PyStr ''Closed'', pause_door_check := True\<rparr>)"
    by simp
  show ?thesis
    using paused
      get_door_state_paused [OF paused, of config "''garage''"
        "\<lparr>is_connected = Ok, reconnect = Ok, publish = Ok, loop = Ok\<rparr>" 50]
    by (simp add: get_door_state_iter_def)
qed

section \<open>The auto-close guard\<close>

text \<open>
  C1. An evaluation of \<open>check_open_time\<close> creates the actuator task exactly when the
  hour is in the window (\<open>tm_hour \<ge> GARAGE_CLOSE_AFTER\<close> or
  \<open>tm_hour \<le> GARAGE_CLOSE_BEFORE\<close>), \<open>door_status\<close> is "Open", \<open>door_error\<close> is
  \<open>False\<close> and \<open>motion\<close> is \<open>False\<close>; this holds of the piece up to the sleep and of
  the whole call. In particular no close is started while \<open>motion\<close> is \<open>True\<close> or
  \<open>None\<close>. With the shipped configuration (20 and 7) and the other three conditions
  met, hours 21 and 3 start a close and hour 12 does not.
\<close>

theorem check_open_time_initiates_iff:
  "(close_initiated (check_open_time_begin cfg tm_hour now gs) \<longleftrightarrow>
      (tm_hour \<ge> GARAGE_CLOSE_AFTER cfg \<or> tm_hour \<le> GARAGE_CLOSE_BEFORE cfg)
      \<and> door_status gs = PyStr ''Open'' \<and> door_error gs = False \<and> motion gs = Some False)
   \<and> (Create_task_activate_opener
         \<in> set (actions_of (check_open_time cfg mqtt_topic c tm_hour now now' gs)) \<longleftrightarrow>
      (tm_hour \<ge> GARAGE_CLOSE_AFTER cfg \<or> tm_hour \<le> GARAGE_CLOSE_BEFORE cfg)
      \<and> door_status gs = PyStr ''Open'' \<and> door_error gs = False \<and> motion gs = Some False)
   \<and> (motion gs = Some True \<or> motion gs = None \<longrightarrow>
        \<not> close_initiated (check_open_time_begin cfg tm_hour now gs)
        \<and> Create_task_activate_opener
             \<notin> set (actions_of (check_open_time cfg mqtt_topic c tm_hour now now' gs)))
   \<and> (door_status gs = PyStr ''Open'' \<and> door_error gs = False \<and> motion gs = Some False \<longrightarrow>
        close_initiated (check_open_time_begin config 21 now gs) \<and>
        close_initiated (check_open_time_begin config 3 now gs) \<and>
        \<not> close_initiated (check_open_time_begin config 12 now gs))"
proof -
  let ?guard = "(tm_hour \<ge> GARAGE_CLOSE_AFTER cfg \<or> tm_hour \<le> GARAGE_CLOSE_BEFORE cfg)
      \<and> door_status gs = PyStr ''Open'' \<and> door_error gs = False \<and> motion gs = Some False"
  have piece: "close_initiated (check_open_time_begin cfg tm_hour now gs) \<longleftrightarrow> ?guard"
    by (simp add: check_open_time_begin_def close_initiated_def)
  have whole: "Create_task_activate_opener
        \<in> set (actions_of (check_open_time cfg mqtt_topic c tm_hour now now' gs)) \<longleftrightarrow> ?guard"
    by (simp add: check_open_time_def check_open_time_begin_def actions_of_def
        split: prod.splits)
  have shipped: "door_status gs = PyStr ''Open'' \<and> door_error gs = False \<and> motion gs = Some False \<longrightarrow>
        close_initiated (check_open_time_begin config 21 now gs) \<and>
        close_initiated (check_open_time_begin config 3 now gs) \<and>
        \<not> close_initiated (check_open_time_begin config 12 now gs)"
    by (simp add: check_open_time_begin_def close_initiated_def config_simps)
  from piece whole shipped show ?thesis by auto
qed

theorem check_open_time_initiates_iff_witness:
  "close_initiated (check_open_time_begin config 21 100
      \<lparr>door_error = False, motion = Some False, door_status = PyStr ''Open'',
       motion_timeout = 0, pause_door_check = False\<rparr>)
   \<and> close_initiated (check_open_time_begin config 3 100
      \<lparr>door_error = False, motion = Some False, door_status = PyStr ''Open'',
       motion_timeout = 0, pause_door_check = False\<rparr>)
   \<and> \<not> close_initiated (check_open_time_begin config 12 100
      \<lparr>door_error = False, motion = Some False, door_status = PyStr ''Open'',
       motion_timeout = 0, pause_door_check = False\<rparr>)
   \<and> \<not> close_initiated (check_open_time_begin config 21 100
      \<lparr>door_error = False, motion = None, door_status = PyStr ''Open'',
       motion_timeout = 0, pause_door_check = False\<rparr>)
   \<and> \<not> close_initiated (check_open_time_begin config 21 100
      \<lparr>door_error = False, motion = Some True, door_status = PyStr ''Open'',
       motion_timeout = 400, pause_door_check = False\<rparr>)"
  using
    check_open_time_initiates_iff [of config 21 100
      "\<lparr>door_error = False, motion = Some False, door_status = PyStr ''Open'',
        motion_timeout = 0, pause_door_check = False\<rparr>"
      "''garage''" "\<lparr>is_connected = Ok, reconnect = Ok, publish = Ok, loop = Ok\<rparr>" 112]
    check_open_time_initiates_iff [of config 21 100
      "\<lparr>door_error = False, motion = None, door_status = PyStr ''Open'',
        motion_timeout = 0, pause_door_check = False\<rparr>"
      "''garage''" "\<lparr>is_connected = Ok, reconnect = Ok, publish = Ok, loop = Ok\<rparr>" 112]
    check_open_time_initiates_iff [of config 21 100
      "\<lparr>door_error = False, motion = Some True, door_status = PyStr ''Open'',
        motion_timeout = 400, pause_door_check = False\<rparr>"
      "''garage''" "\<lparr>is_connected = Ok, reconnect = Ok, publish = Ok, loop = Ok\<rparr>" 112]
  by (simp add: config_simps)


text \<open>
  C2 (the code departs from the claim). Once the policy has started a close and slept,
  it does not read the sensor: it stores in \<open>door_status\<close> the coroutine object that
  the un-awaited call \<open>get_door_state()\<close> returns. That value is never "Open", so on
  every state \<open>door_error\<close> is left as it was and no error time is recorded. At the
  input below (hour 22, door open, no motion, no error) the call ends with
  \<open>door_error\<close> false and publishes the dump of the state object.
\<close>

theorem check_open_time_stores_coroutine:
  "check_open_time config ''garage'' \<lparr>is_connected = Ok, reconnect = Ok, publish = Ok, loop = Ok\<rparr>
      22 100 112
      \<lparr>door_error = False, motion = Some False, door_status = PyStr ''Open'',
       motion_timeout = 0, pause_door_check = False\<rparr>
    = Inr (\<lparr>door_error = False, motion = Some False, door_status = PyCoroutine,
            motion_timeout = 0, pause_door_check = False\<rparr>,
           [Create_task_activate_opener, Sleep 12, Is_connected,
            Publish ''garage/garage-state'' Json_dumps_object])
   \<and> door_error (fst (check_open_time_resume mqtt_topic c now gs)) = door_error gs
   \<and> door_status (fst (check_open_time_resume mqtt_topic c now gs)) = PyCoroutine
   \<and> fst (snd (check_open_time_resume mqtt_topic c now gs)) = None"
  by (simp add: check_open_time_def check_open_time_begin_def check_open_time_resume_def
      config_simps publish_to_mqtt_def MQTT_GARAGE_STATE_def)

text \<open>
  C3 (the code departs from the claim). With \<open>door_error\<close> set, the door open and the
  hour in the window, the policy reads its local \<open>door_error_time\<close>, which nothing has
  assigned in this call: the evaluation raises instead of comparing the elapsed time
  with 900 seconds, and \<open>door_error\<close> is not cleared, whatever the clock reads.
\<close>

theorem check_open_time_backoff_raises:
  "check_open_time config ''garage'' \<lparr>is_connected = Ok, reconnect = Ok, publish = Ok, loop = Ok\<rparr>
      22 1000 1012
      \<lparr>door_error = True, motion = Some False, door_status = PyStr ''Open'',
       motion_timeout = 0, pause_door_check = False\<rparr>
    = Inl UnboundLocalError
   \<and> check_open_time_begin config 22 1000
      \<lparr>door_error = True, motion = Some False, door_status = PyStr ''Open'',
       motion_timeout = 0, pause_door_check = False\<rparr>
    = Inl UnboundLocalError"
  by (simp add: check_open_time_def check_open_time_begin_def config_simps)

section \<open>The task coordinator\<close>

text \<open>
  C9. \<open>main\<close> creates exactly one task for \<open>check_open_time\<close> and one for
  \<open>update_rtc\<close>. Under every schedule the close-window condition is evaluated at most
  once and the clock is set at most once: the clock task has returned once it has been
  resumed, the policy task has evaluated its condition once it has been resumed and has
  returned once it has been resumed twice, and neither is evaluated again. Every other
  task (motion, door, the two telemetry samplers, the link loop and the state
  publisher) never returns, and runs one more iteration each time it is resumed.
\<close>

theorem one_shot_tasks_run_once:
  "count_list main Check_open_time = 1 \<and> count_list main Update_rtc = 1
   \<and> map fst (fst (asyncio_run_main picks)) = main
   \<and> count_list (snd (asyncio_run_main picks)) Check_open_time \<le> 1
   \<and> count_list (snd (asyncio_run_main picks)) Update_rtc \<le> 1
   \<and> (\<forall>i < length main.
        (main ! i = Update_rtc \<and> picks_of i picks \<noteq> [] \<longrightarrow>
           snd (fst (asyncio_run_main picks) ! i) = Finished
           \<and> count_list (snd (asyncio_run_main picks)) Update_rtc = 1)
      \<and> (main ! i = Check_open_time \<and> picks_of i picks \<noteq> [] \<longrightarrow>
           count_list (snd (asyncio_run_main picks)) Check_open_time = 1
           \<and> snd (fst (asyncio_run_main picks) ! i) \<noteq> At_entry)
      \<and> (main ! i = Check_open_time \<and> 2 \<le> length (picks_of i picks) \<longrightarrow>
           snd (fst (asyncio_run_main picks) ! i) = Finished)
      \<and> (loops_forever (main ! i) \<longrightarrow>
           snd (fst (asyncio_run_main picks) ! i) \<noteq> Finished
           \<and> count_list (snd (asyncio_run_main picks)) (main ! i) = length (picks_of i picks)))"
proof -
  have names: "map fst (fst (asyncio_run_main picks)) = main"
    using schedule_tracks_task [of main 0 picks] main_facts
    by (simp add: asyncio_run_main_def)
  have track: "snd (fst (asyncio_run_main picks) ! i)
                 = fst (task_run (main ! i) (picks_of i picks) At_entry)
             \<and> count_list (snd (asyncio_run_main picks)) (main ! i)
                 = snd (task_run (main ! i) (picks_of i picks) At_entry)"
    if "i < length main" for i
    using schedule_tracks_task [of main i picks] main_facts that
    by (simp add: asyncio_run_main_def)
  have rtc: "main ! 4 = Update_rtc" and pol: "main ! 5 = Check_open_time"
    by (simp_all add: main_def)
  have c1: "count_list (snd (asyncio_run_main picks)) Check_open_time \<le> 1"
    using track [of 5] by (simp add: pol main_facts task_run_Check_open_time split: list.splits)
  have c2: "count_list (snd (asyncio_run_main picks)) Update_rtc \<le> 1"
    using track [of 4] by (simp add: rtc main_facts task_run_Update_rtc)
  have each: "(main ! i = Update_rtc \<and> picks_of i picks \<noteq> [] \<longrightarrow>
           snd (fst (asyncio_run_main picks) ! i) = Finished
           \<and> count_list (snd (asyncio_run_main picks)) Update_rtc = 1)
      \<and> (main ! i = Check_open_time \<and> picks_of i picks \<noteq> [] \<longrightarrow>
           count_list (snd (asyncio_run_main picks)) Check_open_time = 1
           \<and> snd (fst (asyncio_run_main picks) ! i) \<noteq> At_entry)
      \<and> (main ! i = Check_open_time \<and> 2 \<le> length (picks_of i picks) \<longrightarrow>
           snd (fst (asyncio_run_main picks) ! i) = Finished)
      \<and> (loops_forever (main ! i) \<longrightarrow>
           snd (fst (asyncio_run_main picks) ! i) \<noteq> Finished
           \<and> count_list (snd (asyncio_run_main picks)) (main ! i) = length (picks_of i picks))"
    if i: "i < length main" for i
  proof -
    note t = track [OF i]
    have a: "main ! i = Update_rtc \<Longrightarrow> picks_of i picks \<noteq> [] \<Longrightarrow>
           snd (fst (asyncio_run_main picks) ! i) = Finished
           \<and> count_list (snd (asyncio_run_main picks)) Update_rtc = 1"
      using t by (simp add: task_run_Update_rtc)
    have b: "main ! i = Check_open_time \<Longrightarrow> picks_of i picks \<noteq> [] \<Longrightarrow>
           count_list (snd (asyncio_run_main picks)) Check_open_time = 1
           \<and> snd (fst (asyncio_run_main picks) ! i) \<noteq> At_entry"
      using t by (auto simp add: task_run_Check_open_time split: list.splits)
    have c: "main ! i = Check_open_time \<Longrightarrow> 2 \<le> length (picks_of i picks) \<Longrightarrow>
           snd (fst (asyncio_run_main picks) ! i) = Finished"
      using t by (auto simp add: task_run_Check_open_time split: list.splits)
    have d: "loops_forever (main ! i) \<Longrightarrow>
           snd (fst (asyncio_run_main picks) ! i) \<noteq> Finished
           \<and> count_list (snd (asyncio_run_main picks)) (main ! i) = length (picks_of i picks)"
      using t by (simp add: task_run_loops)
    from a b c d show ?thesis by blast
  qed
  from names c1 c2 each main_facts show ?thesis by blast
qed

theorem one_shot_tasks_run_once_witness:
  "asyncio_run_main [(5, True), (0, False), (4, False), (5, False), (0, False)]
     = ([(Get_motion_state, In_loop), (Get_door_state, At_entry), (Get_sensor_data, At_entry),
         (Get_system_data, At_entry), (Update_rtc, Finished), (Check_open_time, Finished),
         (Mqtt_client_loop, At_entry), (Mqtt_publish_loop, At_entry)],
        [Check_open_time, Get_motion_state, Update_rtc, Get_motion_state])
   \<and> (0::nat) < length main
   \<and> loops_forever (main ! 0)
   \<and> picks_of 0 [(5, True), (0, False), (4, False), (5, False), (0, False)] = [False, False]
   \<and> main ! 4 = Update_rtc
   \<and> picks_of 4 [(5, True), (0, False), (4, False), (5, False), (0, False)] = [False]
   \<and> main ! 5 = Check_open_time
   \<and> picks_of 5 [(5, True), (0, False), (4, False), (5, False), (0, False)] = [True, False]"
  using one_shot_tasks_run_once [of "[(5, True), (0, False), (4, False), (5, False), (0, False)]"]
  by (simp add: asyncio_run_main_def create_tasks_def main_def resume_nth_def picks_of_def)

end
